theory Spec2Isabelle
  imports
    Main
    "HOL-Library.FSet"
    "HOL-Library.Char_ord"
    "HOL-Library.List_Lexorder"
begin

section \<open>The class \<open>Venue\<close> (hands-on 02)\<close>

text \<open>
  \<^verbatim>\<open>
  class Venue(object):
      def __init__(self, identifiers, name):
          self.id = set()
          for identifier in identifiers:
              self.id.add(identifier)
          self.name = name
  \<close>
  An object is its two attributes. \<open>self.id\<close> is a Python set of strings, hence a finite
  set; \<open>self.name\<close> is a string. Every method takes the object and returns the returned
  value together with the object after the call.
\<close>

record Venue =
  self_id :: "string fset"
  self_name :: string

fun init_ids :: "string list \<Rightarrow> string fset \<Rightarrow> string fset" where
  "init_ids [] s = s"
| "init_ids (identifier # identifiers) s = init_ids identifiers (finsert identifier s)"

definition Venue_init :: "string list \<Rightarrow> string \<Rightarrow> Venue" where
  "Venue_init identifiers name = \<lparr>self_id = init_ids identifiers {||}, self_name = name\<rparr>"

text \<open>
  \<^verbatim>\<open>
  def getIds(self):
      result = []
      for identifier in self.id:
          result.append(identifier)
      result.sort()
      return result
  \<close>
  The loop walks the set in the order the set's iterator gives, which Python leaves open:
  \<open>getIds_from\<close> takes that order as the list \<open>order\<close> the iterator yields, and
  \<open>getIds\<close> is the method with the iterator that yields the elements in ascending order.
  Strings compare as Python compares them: lexicographically, character by character, by
  code point. \<open>list.sort\<close> is a stable sort, as \<open>sort\<close> is.
\<close>

fun append_all :: "string list \<Rightarrow> string list \<Rightarrow> string list" where
  "append_all [] result = result"
| "append_all (identifier # rest) result = append_all rest (result @ [identifier])"

definition getIds_from :: "string list \<Rightarrow> Venue \<Rightarrow> string list \<times> Venue" where
  "getIds_from order v = (sort (append_all order []), v)"

definition getIds :: "Venue \<Rightarrow> string list \<times> Venue" where
  "getIds v = getIds_from (sorted_list_of_fset (self_id v)) v"

definition getName :: "Venue \<Rightarrow> string \<times> Venue" where
  "getName v = (self_name v, v)"

text \<open>
  \<^verbatim>\<open>
  def addId(self, identifier):
      result = True
      if identifier not in self.id:
          self.id.add(identifier)
      else:
          result = False
      return result

  def removeId(self, identifier):
      result = True
      if identifier in self.id:
          self.id.remove(identifier)
      else:
          result = False
      return result
  \<close>
\<close>

definition addId :: "Venue \<Rightarrow> string \<Rightarrow> bool \<times> Venue" where
  "addId v identifier =
     (if identifier |\<notin>| self_id v
      then (True, v\<lparr>self_id := finsert identifier (self_id v)\<rparr>)
      else (False, v))"

definition removeId :: "Venue \<Rightarrow> string \<Rightarrow> bool \<times> Venue" where
  "removeId v identifier =
     (if identifier |\<in>| self_id v
      then (True, v\<lparr>self_id := self_id v |-| {|identifier|}\<rparr>)
      else (False, v))"

section \<open>Data frames and synthetic identifiers (library exercise, steps 3 and 4)\<close>

text \<open>
  The errors the scripts can raise: Python's \<open>KeyError\<close> (a column or dictionary key that
  is not there), \<open>ValueError\<close> (a column assigned from a list of the wrong length),
  sqlite3's \<open>IntegrityError\<close> (a table constraint violated, with the message of SQLite)
  and the \<open>URLError\<close> of a request that the SPARQL endpoint does not answer.
\<close>

datatype error = KeyError string | ValueError | IntegrityError string | URLError

text \<open>
  A cell of a data frame read by \<open>read_csv\<close> from a textual column is a string, or NaN
  where the source field is empty. A data frame is its column names and its rows, each row
  holding one cell per column; the index of a frame just read is \<open>0, 1, ..., len - 1\<close>,
  the position of the row.
\<close>

datatype cell = Str string | NaN

record DataFrame =
  columns :: "string list"
  rows :: "cell list list"

definition rectangular :: "DataFrame \<Rightarrow> bool" where
  "rectangular df = list_all (\<lambda>r. length r = length (columns df)) (rows df)"

fun index_of :: "string \<Rightarrow> string list \<Rightarrow> nat" where
  "index_of c [] = 0"
| "index_of c (x # xs) = (if x = c then 0 else Suc (index_of c xs))"

text \<open>\<open>row[c]\<close> on a row of a frame with the columns \<open>cols\<close>: the cell, or KeyError.\<close>

definition getitem :: "string list \<Rightarrow> cell list \<Rightarrow> string \<Rightarrow> error + cell" where
  "getitem cols r c =
     (if c \<in> set cols \<and> index_of c cols < length r then Inr (r ! index_of c cols)
      else Inl (KeyError c))"

text \<open>
  \<open>df[c] = vals\<close> for a list \<open>vals\<close>: pandas raises ValueError when the list is not as
  long as the frame, replaces the column when the frame has one of that name and adds it
  as the last column otherwise.
\<close>

definition setitem :: "DataFrame \<Rightarrow> string \<Rightarrow> cell list \<Rightarrow> error + DataFrame" where
  "setitem df c vals =
     (if length vals \<noteq> length (rows df) then Inl ValueError
      else if c \<in> set (columns df)
      then Inr (df\<lparr>rows := map (\<lambda>(r, v). r[index_of c (columns df) := v]) (zip (rows df) vals)\<rparr>)
      else Inr (df\<lparr>columns := columns df @ [c],
                    rows := map (\<lambda>(r, v). r @ [v]) (zip (rows df) vals)\<rparr>))"

text \<open>Python's \<open>str(i)\<close> for an integer \<open>i \<ge> 0\<close>: the decimal digits, most significant first.\<close>

definition digit_char :: "nat \<Rightarrow> char" where
  "digit_char d = ''0123456789'' ! d"

function str :: "nat \<Rightarrow> string" where
  "str i = (if i < 10 then [digit_char i] else str (i div 10) @ [digit_char (i mod 10)])"
  by pat_completeness auto
termination
  by (relation "measure id") auto

declare str.simps [simp del]

text \<open>
  \<^verbatim>\<open>
  bibliographic_df['unique_id'] = ['biblio-' + str(i) for i in range(len(bibliographic_df))]
  publishers_df['unique_id'] = ['publisher-' + str(i) for i in range(len(publishers_df))]
  \<close>
  \<open>unique_id\<close> is the list comprehension, for the string literal \<open>tag\<close> and the length
  \<open>n\<close> of the frame; \<open>assign_unique_id\<close> is the whole assignment.
\<close>

definition unique_id :: "string \<Rightarrow> nat \<Rightarrow> cell list" where
  "unique_id tag n = map (\<lambda>i. Str (tag @ str i)) [0..<n]"

definition assign_unique_id :: "string \<Rightarrow> DataFrame \<Rightarrow> error + DataFrame" where
  "assign_unique_id tag df = setitem df ''unique_id'' (unique_id tag (length (rows df)))"

definition bibliographic_ids :: "DataFrame \<Rightarrow> error + DataFrame" where
  "bibliographic_ids bibliographic_df = assign_unique_id ''biblio-'' bibliographic_df"

definition publishers_ids :: "DataFrame \<Rightarrow> error + DataFrame" where
  "publishers_ids publishers_df = assign_unique_id ''publisher-'' publishers_df"

text \<open>
  Hands-on 04 builds the identifiers in a loop over the rows and puts them in front of
  the frame:
  \<^verbatim>\<open>
  venue_internal_id = []
  for idx, row in venues_ids.iterrows():
      venue_internal_id.append("venue-" + str(idx))
  venues_ids.insert(0, "venueId", Series(venue_internal_id, dtype="string"))
  \<close>
  \<open>idx\<close> is the index of the row, its position in a frame just read.
  \<open>DataFrame.insert\<close> raises ValueError when the frame already has a column of that
  name; the values of the series go to the rows by index, and a row the series has no
  value for gets NaN.
\<close>

fun internal_id_loop :: "string \<Rightarrow> nat \<Rightarrow> cell list list \<Rightarrow> cell list \<Rightarrow> cell list" where
  "internal_id_loop tag idx [] internal_id = internal_id"
| "internal_id_loop tag idx (row # rest) internal_id =
     internal_id_loop tag (Suc idx) rest (internal_id @ [Str (tag @ str idx)])"

definition insert_first :: "DataFrame \<Rightarrow> string \<Rightarrow> cell list \<Rightarrow> error + DataFrame" where
  "insert_first df c vals =
     (if c \<in> set (columns df) then Inl ValueError
      else Inr (df\<lparr>columns := c # columns df,
                    rows := map (\<lambda>i. (if i < length vals then vals ! i else NaN) # rows df ! i)
                              [0..<length (rows df)]\<rparr>))"

definition insert_internal_id :: "string \<Rightarrow> string \<Rightarrow> DataFrame \<Rightarrow> error + DataFrame" where
  "insert_internal_id tag c df = insert_first df c (internal_id_loop tag 0 (rows df) [])"

text \<open>
  The frame the assignment leaves, in closed form (\<open>assign_unique_id_eq\<close> below proves
  that the assignment returns it): row \<open>i\<close> gets \<open>tag + str(i)\<close> in the column
  \<open>unique_id\<close>.
\<close>

definition assigned :: "string \<Rightarrow> DataFrame \<Rightarrow> DataFrame" where
  "assigned tag df =
     (if ''unique_id'' \<in> set (columns df)
      then df\<lparr>rows := map (\<lambda>i. (rows df ! i)[index_of ''unique_id'' (columns df) := Str (tag @ str i)])
                        [0..<length (rows df)]\<rparr>
      else df\<lparr>columns := columns df @ [''unique_id''],
              rows := map (\<lambda>i. rows df ! i @ [Str (tag @ str i)]) [0..<length (rows df)]\<rparr>)"

section \<open>Merging two data frames (library exercise, step 1 of exercise 2; hands-on 04)\<close>

text \<open>
  \<^verbatim>\<open>
  merged_df = pd.merge(
      bibliographic_df,
      publishers_df,
      left_on='publisher',  # Column in bibliographic_df
      right_on='id',        # Column in publishers_df
      how='left'            # Keep all rows from bibliographic_df
  )
  \<close>
  and, in hands-on 04, with the default \<open>how='inner'\<close>:
  \<^verbatim>\<open>
  df_joined = merge(journals, venues_ids, left_on="id", right_on="id")
  df_joined = merge(journal_articles, venues_ids, left_on="publication venue", right_on="id")
  \<close>
  \<open>merge\<close> is the function of pandas, a database-style join on one key column of each
  frame, with no \<open>validate\<close> argument, as the scripts call it:
  \<^item> a key column that a frame does not have raises KeyError;
  \<^item> the rows of the result follow the order of the left frame; a left row is paired
    with every right row whose key cell equals its own, in the order of the right frame
    (two NaN keys are equal to each other for pandas);
  \<^item> a left row that no right row matches is kept under \<open>how='left'\<close>, with NaN in
    every column that comes from the right frame, and is dropped under \<open>how='inner'\<close>;
  \<^item> when both key columns have the same name the result has that column once;
  \<^item> a column name that both frames have gets the suffix \<open>_x\<close> on the left and
    \<open>_y\<close> on the right (the script then renames \<open>id_x\<close> and \<open>id_y\<close>).
\<close>

datatype how = how_left | how_inner

definition drop_nth :: "nat \<Rightarrow> 'a list \<Rightarrow> 'a list" where
  "drop_nth k xs = take k xs @ drop (Suc k) xs"

text \<open>The part of a right row (or of the right column names) that goes into the result.\<close>

definition right_part :: "string list \<Rightarrow> string \<Rightarrow> string \<Rightarrow> 'a list \<Rightarrow> 'a list" where
  "right_part rcols left_on right_on xs =
     (if left_on = right_on then drop_nth (index_of right_on rcols) xs else xs)"

definition merge_columns :: "string list \<Rightarrow> string list \<Rightarrow> string \<Rightarrow> string \<Rightarrow> string list" where
  "merge_columns lcols rcols left_on right_on =
     (let rc = right_part rcols left_on right_on rcols in
      map (\<lambda>c. if c \<in> set rc then c @ ''_x'' else c) lcols
      @ map (\<lambda>c. if c \<in> set lcols then c @ ''_y'' else c) rc)"

text \<open>The right rows whose key equals the key of the left row \<open>l\<close>, in the right frame's order.\<close>

definition matching :: "DataFrame \<Rightarrow> DataFrame \<Rightarrow> string \<Rightarrow> string \<Rightarrow> cell list \<Rightarrow> cell list list" where
  "matching left right left_on right_on l =
     filter (\<lambda>r. getitem (columns right) r right_on = getitem (columns left) l left_on) (rows right)"

definition joined_rows ::
  "DataFrame \<Rightarrow> DataFrame \<Rightarrow> string \<Rightarrow> string \<Rightarrow> how \<Rightarrow> cell list \<Rightarrow> cell list list" where
  "joined_rows left right left_on right_on h l =
     (case matching left right left_on right_on l of
        [] \<Rightarrow> (case h of
                 how_left \<Rightarrow>
                   [l @ replicate (length (right_part (columns right) left_on right_on (columns right))) NaN]
               | how_inner \<Rightarrow> [])
      | r # rs \<Rightarrow> map (\<lambda>r. l @ right_part (columns right) left_on right_on r) (r # rs))"

definition merge ::
  "DataFrame \<Rightarrow> DataFrame \<Rightarrow> string \<Rightarrow> string \<Rightarrow> how \<Rightarrow> error + DataFrame" where
  "merge left right left_on right_on h =
     (if right_on \<notin> set (columns right) then Inl (KeyError right_on)
      else if left_on \<notin> set (columns left) then Inl (KeyError left_on)
      else Inr \<lparr>columns = merge_columns (columns left) (columns right) left_on right_on,
                rows = concat (map (joined_rows left right left_on right_on h) (rows left))\<rparr>)"

text \<open>
  \<^verbatim>\<open>
  merged_df = merged_df.rename(columns={
      'id_x': 'bibliographic_id',
      'id_y': 'publisher_id',
      'name': 'publisher_name'
  })
  \<close>
\<close>

definition rename :: "DataFrame \<Rightarrow> (string \<times> string) list \<Rightarrow> DataFrame" where
  "rename df names =
     df\<lparr>columns := map (\<lambda>c. case map_of names c of None \<Rightarrow> c | Some c' \<Rightarrow> c') (columns df)\<rparr>"

definition merged_df :: "DataFrame \<Rightarrow> DataFrame \<Rightarrow> error + DataFrame" where
  "merged_df bibliographic_df publishers_df =
     (case merge bibliographic_df publishers_df ''publisher'' ''id'' how_left of
        Inl e \<Rightarrow> Inl e
      | Inr m \<Rightarrow> Inr (rename m [(''id_x'', ''bibliographic_id''), (''id_y'', ''publisher_id''),
                                 (''name'', ''publisher_name'')]))"

section \<open>Building the RDF graph (hands-on 05)\<close>

text \<open>
  A term of a statement is a resource (\<open>URIRef\<close>, by its IRI) or a literal (\<open>Literal\<close>;
  every literal the script builds is made from a string). A graph of rdflib is a set of
  statements: it is kept as the list of its statements in the order they were added, and
  \<open>add\<close> of a statement that is already there changes nothing. \<open>len(my_graph)\<close> is the
  length of the list.
\<close>

datatype node = URIRef string | Literal string

type_synonym triple = "node \<times> node \<times> node"

type_synonym Graph = "triple list"

definition add :: "Graph \<Rightarrow> triple \<Rightarrow> Graph" where
  "add g t = (if t \<in> set g then g else g @ [t])"

text \<open>
  \<^verbatim>\<open>
  JournalArticle = URIRef("https://schema.org/ScholarlyArticle")
  BookChapter = URIRef("https://schema.org/Chapter")
  Journal = URIRef("https://schema.org/Periodical")
  Book = URIRef("https://schema.org/Book")
  doi = URIRef("https://schema.org/identifier")
  publicationYear = URIRef("https://schema.org/datePublished")
  title = URIRef("https://schema.org/name")
  issue = URIRef("https://schema.org/issueNumber")
  volume = URIRef("https://schema.org/volumeNumber")
  identifier = URIRef("https://schema.org/identifier")
  name = URIRef("https://schema.org/name")
  publicationVenue = URIRef("https://schema.org/isPartOf")
  \<close>
  and \<open>RDF.type\<close> of rdflib, the reserved type predicate.
\<close>

definition JournalArticle :: node where "JournalArticle = URIRef ''https://schema.org/ScholarlyArticle''"
definition BookChapter :: node where "BookChapter = URIRef ''https://schema.org/Chapter''"
definition Journal :: node where "Journal = URIRef ''https://schema.org/Periodical''"
definition Book :: node where "Book = URIRef ''https://schema.org/Book''"
definition doi :: node where "doi = URIRef ''https://schema.org/identifier''"
definition publicationYear :: node where "publicationYear = URIRef ''https://schema.org/datePublished''"
definition title :: node where "title = URIRef ''https://schema.org/name''"
definition issue :: node where "issue = URIRef ''https://schema.org/issueNumber''"
definition volume :: node where "volume = URIRef ''https://schema.org/volumeNumber''"
definition "identifier = (URIRef ''https://schema.org/identifier'' :: node)"
definition name :: node where "name = URIRef ''https://schema.org/name''"
definition publicationVenue :: node where "publicationVenue = URIRef ''https://schema.org/isPartOf''"
definition RDF_type :: node where "RDF_type = URIRef ''http://www.w3.org/1999/02/22-rdf-syntax-ns#type''"

definition base_url :: string where
  "base_url = ''https://comp-data.github.io/res/''"

text \<open>
  The two frames are read with \<open>keep_default_na=False\<close> and a \<open>dtype\<close> for every
  column, so every cell is a string (the empty string where the source field is empty),
  but the publication year, an integer. A row is the record of its cells.
\<close>

record venue_row =
  venue_id :: string
  venue_name :: string
  venue_type :: string

record publication_row =
  pub_doi :: string
  pub_title :: string
  pub_year :: int
  pub_venue :: string
  pub_type :: string
  pub_issue :: string
  pub_volume :: string

text \<open>\<open>str\<close> of a Python integer of either sign.\<close>

definition str_int :: "int \<Rightarrow> string" where
  "str_int i = (if i < 0 then CHR ''-'' # str (nat (- i)) else str (nat i))"

text \<open>
  \<^verbatim>\<open>
  venue_internal_id = {}
  for idx, row in venues.iterrows():
      local_id = "venue-" + str(idx)
      subj = URIRef(base_url + local_id)
      venue_internal_id[row["id"]] = subj
      if row["type"] == "journal":
          my_graph.add((subj, RDF.type, Journal))
      else:
          my_graph.add((subj, RDF.type, Book))
      my_graph.add((subj, name, Literal(row["name"])))
      my_graph.add((subj, identifier, Literal(row["id"])))
  \<close>
  The state of the loop is the graph and the dictionary \<open>venue_internal_id\<close>.
  \<open>venue_step\<close> is one turn of the loop, \<open>venues_loop\<close> the loop from the index \<open>idx\<close> on.
\<close>

definition venue_step ::
  "string \<Rightarrow> nat \<Rightarrow> venue_row \<Rightarrow> Graph \<times> (string \<rightharpoonup> node) \<Rightarrow> Graph \<times> (string \<rightharpoonup> node)" where
  "venue_step base idx row st =
     (let my_graph = fst st; venue_internal_id = snd st;
          local_id = ''venue-'' @ str idx;
          subj = URIRef (base @ local_id);
          venue_internal_id = venue_internal_id(venue_id row \<mapsto> subj);
          my_graph = (if venue_type row = ''journal''
                      then add my_graph (subj, RDF_type, Journal)
                      else add my_graph (subj, RDF_type, Book));
          my_graph = add my_graph (subj, name, Literal (venue_name row));
          my_graph = add my_graph (subj, identifier, Literal (venue_id row))
      in (my_graph, venue_internal_id))"

fun venues_loop ::
  "string \<Rightarrow> nat \<Rightarrow> venue_row list \<Rightarrow> Graph \<times> (string \<rightharpoonup> node) \<Rightarrow> Graph \<times> (string \<rightharpoonup> node)" where
  "venues_loop base idx [] st = st"
| "venues_loop base idx (row # rest) st = venues_loop base (Suc idx) rest (venue_step base idx row st)"

text \<open>
  \<^verbatim>\<open>
  for idx, row in publications.iterrows():
      local_id = "publication-" + str(idx)
      subj = URIRef(base_url + local_id)
      if row["type"] == "journal article":
          my_graph.add((subj, RDF.type, JournalArticle))
          # These two statements applies only to journal articles
          my_graph.add((subj, issue, Literal(row["issue"])))
          my_graph.add((subj, volume, Literal(row["volume"])))
      else:
          my_graph.add((subj, RDF.type, BookChapter))
      my_graph.add((subj, name, Literal(row["title"])))
      my_graph.add((subj, identifier, Literal(row["doi"])))
      my_graph.add((subj, publicationYear, Literal(str(row["publication year"]))))
      my_graph.add((subj, publicationVenue, venue_internal_id[row["publication venue"]]))
  \<close>
  The lookup in the dictionary raises KeyError for a venue that is not among the venues.
\<close>

definition publication_step ::
  "string \<Rightarrow> (string \<rightharpoonup> node) \<Rightarrow> nat \<Rightarrow> publication_row \<Rightarrow> Graph \<Rightarrow> error + Graph" where
  "publication_step base venue_internal_id idx row my_graph =
     (let local_id = ''publication-'' @ str idx;
          subj = URIRef (base @ local_id);
          my_graph = (if pub_type row = ''journal article''
                      then add (add (add my_graph (subj, RDF_type, JournalArticle))
                                  (subj, issue, Literal (pub_issue row)))
                             (subj, volume, Literal (pub_volume row))
                      else add my_graph (subj, RDF_type, BookChapter));
          my_graph = add my_graph (subj, name, Literal (pub_title row));
          my_graph = add my_graph (subj, identifier, Literal (pub_doi row));
          my_graph = add my_graph (subj, publicationYear, Literal (str_int (pub_year row)))
      in case venue_internal_id (pub_venue row) of
           None \<Rightarrow> Inl (KeyError (pub_venue row))
         | Some venue \<Rightarrow> Inr (add my_graph (subj, publicationVenue, venue)))"

fun publications_loop ::
  "string \<Rightarrow> (string \<rightharpoonup> node) \<Rightarrow> nat \<Rightarrow> publication_row list \<Rightarrow> Graph \<Rightarrow> error + Graph" where
  "publications_loop base venue_internal_id idx [] my_graph = Inr my_graph"
| "publications_loop base venue_internal_id idx (row # rest) my_graph =
     (case publication_step base venue_internal_id idx row my_graph of
        Inl e \<Rightarrow> Inl e
      | Inr g \<Rightarrow> publications_loop base venue_internal_id (Suc idx) rest g)"

text \<open>The graph of the two cells, from the empty graph \<open>Graph()\<close>.\<close>

definition populate :: "string \<Rightarrow> venue_row list \<Rightarrow> publication_row list \<Rightarrow> error + Graph" where
  "populate base venues publications =
     (let st = venues_loop base 0 venues ([], Map.empty)
      in publications_loop base (snd st) 0 publications (fst st))"

text \<open>
  The statements one turn of a loop adds, in closed form (the lemmas \<open>venue_step_set\<close> and
  \<open>publication_step_set\<close> below relate them to the loops).
\<close>

definition venue_statements :: "string \<Rightarrow> nat \<Rightarrow> venue_row \<Rightarrow> triple list" where
  "venue_statements base idx row =
     [(URIRef (base @ ''venue-'' @ str idx), RDF_type,
         if venue_type row = ''journal'' then Journal else Book),
      (URIRef (base @ ''venue-'' @ str idx), name, Literal (venue_name row)),
      (URIRef (base @ ''venue-'' @ str idx), identifier, Literal (venue_id row))]"

definition publication_statements :: "string \<Rightarrow> nat \<Rightarrow> publication_row \<Rightarrow> node \<Rightarrow> triple list" where
  "publication_statements base idx row venue =
     (if pub_type row = ''journal article''
      then [(URIRef (base @ ''publication-'' @ str idx), RDF_type, JournalArticle),
            (URIRef (base @ ''publication-'' @ str idx), issue, Literal (pub_issue row)),
            (URIRef (base @ ''publication-'' @ str idx), volume, Literal (pub_volume row))]
      else [(URIRef (base @ ''publication-'' @ str idx), RDF_type, BookChapter)])
     @ [(URIRef (base @ ''publication-'' @ str idx), name, Literal (pub_title row)),
        (URIRef (base @ ''publication-'' @ str idx), identifier, Literal (pub_doi row)),
        (URIRef (base @ ''publication-'' @ str idx), publicationYear, Literal (str_int (pub_year row))),
        (URIRef (base @ ''publication-'' @ str idx), publicationVenue, venue)]"

section \<open>The relational database (library exercise, exercise 3 and verification)\<close>

text \<open>
  A value stored in a table is NULL or a text. A Python string is bound to a parameter
  \<open>?\<close> as a text; NaN, a float, is stored by SQLite as NULL.
\<close>

datatype sqlval = NULL | TEXT string

fun adapt :: "cell \<Rightarrow> sqlval" where
  "adapt (Str s) = TEXT s"
| "adapt NaN = NULL"

text \<open>
  \<^verbatim>\<open>
  CREATE TABLE Publisher (
      id TEXT PRIMARY KEY,
      name TEXT NOT NULL,
      unique_id TEXT NOT NULL
  );
  CREATE TABLE BibliographicResource (
      id TEXT PRIMARY KEY,
      title TEXT NOT NULL,
      type TEXT,
      publisher TEXT,
      unique_id TEXT NOT NULL,
      FOREIGN KEY (publisher) REFERENCES Publisher(id)
  );
  \<close>
  A table is the list of its rows in the order of insertion, which is the order in which
  \<open>SELECT *\<close> scans it. The connection sees the tables with its own changes
  (\<open>working\<close>); the file holds what was committed (\<open>db_file\<close>). Closing a connection
  drops the changes that were not committed.
\<close>

type_synonym publisher_record = "sqlval \<times> sqlval \<times> sqlval"

type_synonym resource_record = "sqlval \<times> sqlval \<times> sqlval \<times> sqlval \<times> sqlval"

record tables =
  Publisher :: "publisher_record list"
  BibliographicResource :: "resource_record list"

record Connection =
  is_open :: bool
  working :: tables
  db_file :: tables

definition connect :: "tables \<Rightarrow> Connection" where
  "connect db = \<lparr>is_open = True, working = db, db_file = db\<rparr>"

definition commit :: "Connection \<Rightarrow> Connection" where
  "commit con = con\<lparr>db_file := working con\<rparr>"

definition close :: "Connection \<Rightarrow> Connection" where
  "close con = con\<lparr>is_open := False, working := db_file con\<rparr>"

text \<open>
  \<open>INSERT INTO Publisher (id, name, unique_id) VALUES (?, ?, ?)\<close>. SQLite checks the
  NOT NULL constraints, then the primary key: a key that is not NULL must be new (a
  primary key that is not an integer may be NULL in SQLite, any number of times). The
  foreign key is not enforced: the script does not turn \<open>PRAGMA foreign_keys\<close> on.
\<close>

definition insert_Publisher :: "Connection \<Rightarrow> publisher_record \<Rightarrow> error + Connection" where
  "insert_Publisher con r =
     (case r of (i, n, u) \<Rightarrow>
        if n = NULL then Inl (IntegrityError ''NOT NULL constraint failed: Publisher.name'')
        else if u = NULL then Inl (IntegrityError ''NOT NULL constraint failed: Publisher.unique_id'')
        else if i \<noteq> NULL \<and> i \<in> set (map fst (Publisher (working con)))
        then Inl (IntegrityError ''UNIQUE constraint failed: Publisher.id'')
        else Inr (con\<lparr>working := (working con)\<lparr>Publisher := Publisher (working con) @ [r]\<rparr>\<rparr>))"

definition insert_BibliographicResource :: "Connection \<Rightarrow> resource_record \<Rightarrow> error + Connection" where
  "insert_BibliographicResource con r =
     (case r of (i, t, ty, p, u) \<Rightarrow>
        if t = NULL
        then Inl (IntegrityError ''NOT NULL constraint failed: BibliographicResource.title'')
        else if u = NULL
        then Inl (IntegrityError ''NOT NULL constraint failed: BibliographicResource.unique_id'')
        else if i \<noteq> NULL \<and> i \<in> set (map fst (BibliographicResource (working con)))
        then Inl (IntegrityError ''UNIQUE constraint failed: BibliographicResource.id'')
        else Inr (con\<lparr>working := (working con)
                     \<lparr>BibliographicResource := BibliographicResource (working con) @ [r]\<rparr>\<rparr>))"

text \<open>
  \<^verbatim>\<open>
  for index, row in publishers_df.iterrows():
      cursor.execute('''
      INSERT INTO Publisher (id, name, unique_id)
      VALUES (?, ?, ?);
      ''', (row['id'], row['name'], row['unique_id']))
  \<close>
  The tuple of parameters is built first (a missing column raises KeyError), then the
  statement runs. A loop returns the exception that stopped it, if any, and the
  connection as it is then.
\<close>

definition publisher_parameters :: "string list \<Rightarrow> cell list \<Rightarrow> error + publisher_record" where
  "publisher_parameters cols row =
     (case getitem cols row ''id'' of Inl e \<Rightarrow> Inl e | Inr i \<Rightarrow>
      case getitem cols row ''name'' of Inl e \<Rightarrow> Inl e | Inr n \<Rightarrow>
      case getitem cols row ''unique_id'' of Inl e \<Rightarrow> Inl e | Inr u \<Rightarrow>
      Inr (adapt i, adapt n, adapt u))"

fun insert_publishers :: "string list \<Rightarrow> cell list list \<Rightarrow> Connection \<Rightarrow> error option \<times> Connection" where
  "insert_publishers cols [] con = (None, con)"
| "insert_publishers cols (row # rest) con =
     (case publisher_parameters cols row of
        Inl e \<Rightarrow> (Some e, con)
      | Inr r \<Rightarrow>
          (case insert_Publisher con r of
             Inl e \<Rightarrow> (Some e, con)
           | Inr con' \<Rightarrow> insert_publishers cols rest con'))"

text \<open>
  \<^verbatim>\<open>
  for index, row in bibliographic_df.iterrows():
      cursor.execute('''
      INSERT INTO BibliographicResource (id, title, type, publisher, unique_id)
      VALUES (?, ?, ?, ?, ?);
      ''', (row['id'], row['title'], row['type'], row['publisher'], row['unique_id']))
  \<close>
\<close>

definition resource_parameters :: "string list \<Rightarrow> cell list \<Rightarrow> error + resource_record" where
  "resource_parameters cols row =
     (case getitem cols row ''id'' of Inl e \<Rightarrow> Inl e | Inr i \<Rightarrow>
      case getitem cols row ''title'' of Inl e \<Rightarrow> Inl e | Inr t \<Rightarrow>
      case getitem cols row ''type'' of Inl e \<Rightarrow> Inl e | Inr ty \<Rightarrow>
      case getitem cols row ''publisher'' of Inl e \<Rightarrow> Inl e | Inr p \<Rightarrow>
      case getitem cols row ''unique_id'' of Inl e \<Rightarrow> Inl e | Inr u \<Rightarrow>
      Inr (adapt i, adapt t, adapt ty, adapt p, adapt u))"

fun insert_resources :: "string list \<Rightarrow> cell list list \<Rightarrow> Connection \<Rightarrow> error option \<times> Connection" where
  "insert_resources cols [] con = (None, con)"
| "insert_resources cols (row # rest) con =
     (case resource_parameters cols row of
        Inl e \<Rightarrow> (Some e, con)
      | Inr r \<Rightarrow>
          (case insert_BibliographicResource con r of
             Inl e \<Rightarrow> (Some e, con)
           | Inr con' \<Rightarrow> insert_resources cols rest con'))"

text \<open>
  The cell of exercise 3: the file \<open>library.db\<close> is removed if it is there, so the
  connection opens a new database; the two tables are created; the two loops insert;
  then
  \<^verbatim>\<open>
  connection.commit()
  connection.close()
  \<close>
  No statement of the cell is inside a \<open>try\<close>: an exception leaves the cell where it is
  raised. The result is the exception, if any, and the connection at the end.
\<close>

definition create_library_db :: "DataFrame \<Rightarrow> DataFrame \<Rightarrow> error option \<times> Connection" where
  "create_library_db publishers_df bibliographic_df =
     (let connection = connect \<lparr>Publisher = [], BibliographicResource = []\<rparr> in
      case insert_publishers (columns publishers_df) (rows publishers_df) connection of
        (Some e, connection) \<Rightarrow> (Some e, connection)
      | (None, connection) \<Rightarrow>
          (case insert_resources (columns bibliographic_df) (rows bibliographic_df) connection of
             (Some e, connection) \<Rightarrow> (Some e, connection)
           | (None, connection) \<Rightarrow> (None, close (commit connection))))"






text \<open>
  The context manager of a sqlite3 connection (hands-on 04):
  \<^verbatim>\<open>
  with connect("publications.db") as con:
      # do some operation with the new connection
      con.commit()  # commit the current transaction to the database
      # when you finish, the collection will be closed automatically via 'with'
  \<close>
  Leaving the block commits when the body ended normally and rolls back when it raised;
  it does not close the connection (Python library reference, sqlite3, on the
  connection as a context manager), whatever the comment says.
\<close>

definition rollback :: "Connection \<Rightarrow> Connection" where
  "rollback con = con\<lparr>working := db_file con\<rparr>"

definition with_connect ::
  "tables \<Rightarrow> (Connection \<Rightarrow> error option \<times> Connection) \<Rightarrow> error option \<times> Connection" where
  "with_connect db body =
     (case body (connect db) of
        (None, con) \<Rightarrow> (None, commit con)
      | (Some e, con) \<Rightarrow> (Some e, rollback con))"

definition first_database_cell :: "tables \<Rightarrow> error option \<times> Connection" where
  "first_database_cell db = with_connect db (\<lambda>con. (None, commit con))"

section \<open>Uploading the graph to the triplestore (hands-on 05)\<close>

text \<open>
  \<^verbatim>\<open>
  store = SPARQLUpdateStore()
  endpoint = 'http://127.0.0.1:9999/blazegraph/sparql'
  store.open((endpoint, endpoint))
  for triple in my_graph.triples((None, None, None)):
     store.add(triple)
  store.close()
  \<close>
  The triplestore holds a set of statements; \<open>store.add\<close> sends one update that inserts
  one statement. Whether the endpoint answers the update for a statement is not in the
  hands of the script: \<open>answers\<close> says for which statements it does, and the update of
  any other raises. The loop is not inside a \<open>try\<close>.
\<close>

record SPARQLUpdateStore =
  store_open :: bool
  statements :: "triple list"

fun store_add_all ::
  "(triple \<Rightarrow> bool) \<Rightarrow> triple list \<Rightarrow> SPARQLUpdateStore \<Rightarrow> error option \<times> SPARQLUpdateStore" where
  "store_add_all answers [] store = (None, store)"
| "store_add_all answers (t # ts) store =
     (if answers t
      then store_add_all answers ts (store\<lparr>statements := add (statements store) t\<rparr>)
      else (Some URLError, store))"

definition upload ::
  "(triple \<Rightarrow> bool) \<Rightarrow> triple list \<Rightarrow> Graph \<Rightarrow> error option \<times> SPARQLUpdateStore" where
  "upload answers remote my_graph =
     (let store = \<lparr>store_open = True, statements = remote\<rparr> in
      case store_add_all answers my_graph store of
        (Some e, store) \<Rightarrow> (Some e, store)
      | (None, store) \<Rightarrow> (None, store\<lparr>store_open := False\<rparr>))"

section \<open>Properties of \<open>Venue\<close>\<close>

lemma append_all_eq: "append_all xs acc = acc @ xs"
  by (induction xs arbitrary: acc) simp_all

lemma init_ids_eq: "init_ids xs s = fset_of_list xs |\<union>| s"
  by (induction xs arbitrary: s) auto

lemma sort_enumeration:
  assumes "distinct xs"
  shows "sort xs = sorted_list_of_set (set xs)"
  using assms by (simp add: sorted_list_of_set_sort_remdups distinct_remdups_id)

text \<open>
  Claim C9. For every venue \<open>v\<close> and string \<open>s\<close>: \<open>addId\<close> returns True exactly when \<open>s\<close>
  was not in the identifier set, \<open>removeId\<close> returns True exactly when \<open>s\<close> was in it; in
  both the returned value is True exactly when the call changed the identifier set; after
  \<open>addId\<close> the identifier is in the set and after \<open>removeId\<close> it is not. Neither call
  touches the name.
\<close>

theorem Venue_addId_removeId:
  "fst (addId v s) = (s |\<notin>| self_id v)
   \<and> fst (removeId v s) = (s |\<in>| self_id v)
   \<and> fst (addId v s) = (self_id (snd (addId v s)) \<noteq> self_id v)
   \<and> fst (removeId v s) = (self_id (snd (removeId v s)) \<noteq> self_id v)
   \<and> s |\<in>| self_id (snd (addId v s))
   \<and> s |\<notin>| self_id (snd (removeId v s))
   \<and> self_id (snd (addId v s)) = finsert s (self_id v)
   \<and> self_id (snd (removeId v s)) = self_id v |-| {|s|}
   \<and> self_name (snd (addId v s)) = self_name v
   \<and> self_name (snd (removeId v s)) = self_name v"
  by (auto simp: addId_def removeId_def)

text \<open>
  Claim C10. For every venue, \<open>getIds\<close> returns a list that holds exactly the elements of
  the identifier set, each once, in ascending order, and leaves the venue as it was. The
  result does not depend on the order in which the set's iterator yields the elements:
  any enumeration \<open>order\<close> of the set (each element once) gives the same list.
\<close>

theorem Venue_getIds:
  "set (fst (getIds v)) = fset (self_id v)
   \<and> sorted (fst (getIds v))
   \<and> distinct (fst (getIds v))
   \<and> snd (getIds v) = v
   \<and> (distinct order \<and> fset_of_list order = self_id v \<longrightarrow> getIds_from order v = getIds v)"
proof -
  have d: "distinct (sorted_list_of_fset (self_id v))"
    by (simp add: sorted_list_of_fset.rep_eq)
  have e: "fst (getIds v) = sorted_list_of_fset (self_id v)"
    using sort_enumeration [OF d]
    by (simp add: getIds_def getIds_from_def append_all_eq sorted_list_of_fset.rep_eq)
  have g: "getIds_from order v = getIds v"
    if "distinct order" "fset_of_list order = self_id v"
  proof -
    have "set order = fset (self_id v)"
      using that(2) by (metis fset_of_list.rep_eq)
    then show ?thesis
      using sort_enumeration [OF that(1)] sort_enumeration [OF d]
      by (simp add: getIds_def getIds_from_def append_all_eq sorted_list_of_fset.rep_eq)
  qed
  show ?thesis
    using e g by (simp add: sorted_list_of_fset.rep_eq getIds_def getIds_from_def)
qed

theorem Venue_getIds_witness:
  "fst (getIds (Venue_init [''1531-6912'', ''0001-0001''] ''Comparative and Functional Genomics''))
     = [''0001-0001'', ''1531-6912'']
   \<and> getIds_from [''1531-6912'', ''0001-0001'']
        (Venue_init [''1531-6912'', ''0001-0001''] ''Comparative and Functional Genomics'')
     = getIds (Venue_init [''1531-6912'', ''0001-0001''] ''Comparative and Functional Genomics'')"
proof -
  let ?v = "Venue_init [''1531-6912'', ''0001-0001''] ''Comparative and Functional Genomics''"
  have o: "distinct [''1531-6912'', ''0001-0001''] \<and> fset_of_list [''1531-6912'', ''0001-0001''] = self_id ?v"
    by (auto simp: Venue_init_def)
  have "getIds_from [''1531-6912'', ''0001-0001''] ?v = getIds ?v"
    using Venue_getIds [of ?v "[''1531-6912'', ''0001-0001'']"] o by blast
  moreover have "fst (getIds_from [''1531-6912'', ''0001-0001''] ?v) = [''0001-0001'', ''1531-6912'']"
    by (simp add: getIds_from_def less_char_def)
  ultimately show ?thesis by simp
qed

section \<open>Properties of the synthetic identifiers\<close>

lemma digit_cases: "d < 10 \<Longrightarrow> d \<in> {0, 1, 2, 3, 4, 5, 6, 7, 8, 9::nat}"
  by auto

lemma digit_char_code: "d < 10 \<Longrightarrow> (of_char (digit_char d) :: nat) = 48 + d"
  using digit_cases [of d] by (auto simp: digit_char_def)

lemma digit_char_inj:
  assumes "d < 10" "e < 10" "digit_char d = digit_char e"
  shows "d = e"
proof -
  have "(of_char (digit_char d) :: nat) = of_char (digit_char e)"
    using assms(3) by simp
  then show ?thesis
    using assms(1,2) by (simp add: digit_char_code)
qed

lemma str_length: "0 < length (str i)"
  by (subst str.simps) simp

lemma str_length_big: "10 \<le> i \<Longrightarrow> 2 \<le> length (str i)"
proof -
  assume b: "10 \<le> i"
  have "str i = str (i div 10) @ [digit_char (i mod 10)]"
    using b by (subst str.simps) simp
  moreover have "1 \<le> length (str (i div 10))"
    using str_length [of "i div 10"] by linarith
  ultimately show ?thesis by simp
qed

lemma str_inj: "str i = str j \<Longrightarrow> i = j"
proof (induction i arbitrary: j rule: str.induct)
  case (1 i)
  show ?case
  proof (cases "i < 10")
    case small_i: True
    show ?thesis
    proof (cases "j < 10")
      case True
      with small_i "1.prems" show ?thesis
        by (simp add: str.simps [of i] str.simps [of j] digit_char_inj)
    next
      case False
      then have "2 \<le> length (str j)" by (simp add: str_length_big)
      moreover have "length (str i) = 1" using small_i by (simp add: str.simps [of i])
      ultimately show ?thesis using "1.prems" by simp
    qed
  next
    case big_i: False
    show ?thesis
    proof (cases "j < 10")
      case True
      then have "length (str j) = 1" by (simp add: str.simps [of j])
      moreover have "2 \<le> length (str i)" using big_i by (simp add: str_length_big)
      ultimately show ?thesis using "1.prems" by simp
    next
      case False
      with big_i "1.prems"
      have e: "str (i div 10) = str (j div 10)" "digit_char (i mod 10) = digit_char (j mod 10)"
        by (simp_all add: str.simps [of i] str.simps [of j])
      have "i div 10 = j div 10" using "1.IH" [OF big_i e(1)] .
      moreover have "i mod 10 = j mod 10" using e(2) by (simp add: digit_char_inj)
      ultimately show ?thesis by (metis div_mult_mod_eq)
    qed
  qed
qed

lemma unique_id_length: "length (unique_id tag n) = n"
  by (simp add: unique_id_def)

lemma unique_id_nth: "i < n \<Longrightarrow> unique_id tag n ! i = Str (tag @ str i)"
  by (simp add: unique_id_def)

lemma unique_id_distinct: "distinct (unique_id tag n)"
  by (auto simp: unique_id_def distinct_map inj_on_def dest: str_inj)

lemma index_of_less: "c \<in> set cols \<Longrightarrow> index_of c cols < length cols"
  by (induction cols) auto

lemma index_of_absent: "c \<notin> set cols \<Longrightarrow> index_of c (cols @ [c]) = length cols"
  by (induction cols) auto

lemma index_of_append: "c \<in> set cols \<Longrightarrow> index_of c (cols @ ys) = index_of c cols"
  by (induction cols) auto

lemma index_of_other:
  "c \<in> set cols \<Longrightarrow> d \<in> set cols \<Longrightarrow> c \<noteq> d \<Longrightarrow> index_of c cols \<noteq> index_of d cols"
  by (induction cols) auto

lemma rectangular_nth: "rectangular df \<Longrightarrow> i < length (rows df) \<Longrightarrow> length (rows df ! i) = length (columns df)"
  by (simp add: rectangular_def list_all_length)

lemma zip_unique_id:
  "map f (zip rs (unique_id tag (length rs))) = map (\<lambda>i. f (rs ! i, Str (tag @ str i))) [0..<length rs]"
  by (rule nth_equalityI) (simp_all add: unique_id_def)

lemma assign_unique_id_eq: "assign_unique_id tag df = Inr (assigned tag df)"
  by (simp add: assign_unique_id_def setitem_def unique_id_length assigned_def zip_unique_id)

lemma assigned_length: "length (rows (assigned tag df)) = length (rows df)"
  by (simp add: assigned_def)

lemma assigned_getitem:
  assumes "rectangular df" "i < length (rows df)"
  shows "getitem (columns (assigned tag df)) (rows (assigned tag df) ! i) ''unique_id''
         = Inr (Str (tag @ str i))"
proof -
  have l: "length (rows df ! i) = length (columns df)"
    using rectangular_nth [OF assms] .
  show ?thesis
  proof (cases "''unique_id'' \<in> set (columns df)")
    case True
    then show ?thesis
      using assms(2) l index_of_less [OF True] by (simp add: assigned_def getitem_def)
  next
    case False
    have "(rows df ! i @ [Str (tag @ str i)]) ! length (rows df ! i) = Str (tag @ str i)"
      by (rule nth_append_length)
    then show ?thesis
      using assms(2) l False by (simp add: assigned_def getitem_def index_of_absent)
  qed
qed

lemma assigned_other:
  assumes "rectangular df" "i < length (rows df)" "c \<noteq> ''unique_id''"
  shows "getitem (columns (assigned tag df)) (rows (assigned tag df) ! i) c
         = getitem (columns df) (rows df ! i) c"
proof -
  have l: "length (rows df ! i) = length (columns df)"
    using rectangular_nth [OF assms(1,2)] .
  show ?thesis
  proof (cases "c \<in> set (columns df)")
    case False
    then show ?thesis
      using assms(3) by (simp add: assigned_def getitem_def)
  next
    case True
    note k = index_of_less [OF True]
    show ?thesis
    proof (cases "''unique_id'' \<in> set (columns df)")
      case u: True
      then show ?thesis
        using assms(2,3) l True k index_of_other [OF u True]
        by (simp add: assigned_def getitem_def)
    next
      case u: False
      then show ?thesis
        using assms(2) l True k
        by (simp add: assigned_def getitem_def index_of_append nth_append)
    qed
  qed
qed

lemma assigned_rectangular: "rectangular df \<Longrightarrow> rectangular (assigned tag df)"
  by (auto simp: assigned_def rectangular_def list_all_length)

lemma assigned_column_distinct:
  assumes "rectangular df"
  shows "distinct (map (\<lambda>r. getitem (columns (assigned tag df)) r ''unique_id'') (rows (assigned tag df)))"
proof -
  let ?a = "assigned tag df"
  have "map (\<lambda>r. getitem (columns ?a) r ''unique_id'') (rows ?a)
        = map (\<lambda>i. Inr (Str (tag @ str i))) [0..<length (rows df)]"
    using assigned_getitem [OF assms]
    by (intro nth_equalityI) (simp_all add: assigned_length)
  then show ?thesis
    by (auto simp: distinct_map inj_on_def dest: str_inj)
qed

lemma example_frame_assigned:
  "assign_unique_id ''biblio-''
     \<lparr>columns = [''id'', ''title''],
      rows = [[Str ''doi:10.1/a'', Str ''A''], [Str ''doi:10.1/b'', NaN]]\<rparr>
   = Inr \<lparr>columns = [''id'', ''title'', ''unique_id''],
          rows = [[Str ''doi:10.1/a'', Str ''A'', Str ''biblio-0''],
                  [Str ''doi:10.1/b'', NaN, Str ''biblio-1'']]\<rparr>"
  by (simp add: assign_unique_id_def setitem_def unique_id_def upt_rec str.simps digit_char_def)

lemma internal_id_loop_eq:
  "internal_id_loop tag idx rs acc = acc @ map (\<lambda>i. Str (tag @ str i)) [idx..<idx + length rs]"
proof (induction rs arbitrary: idx acc)
  case Nil
  then show ?case by simp
next
  case (Cons row rs)
  have "[idx..<idx + length (row # rs)] = idx # [Suc idx..<Suc idx + length rs]"
    by (simp add: upt_rec)
  then show ?case
    using Cons.IH [of "Suc idx"] by simp
qed

lemma internal_id_loop_unique_id: "internal_id_loop tag 0 rs [] = unique_id tag (length rs)"
  by (simp add: internal_id_loop_eq unique_id_def)

lemma example_frame_inserted:
  "insert_internal_id ''venue-'' ''venueId''
     \<lparr>columns = [''id''], rows = [[Str ''1531-6912''], [Str ''1367-5931'']]\<rparr>
   = Inr \<lparr>columns = [''venueId'', ''id''],
          rows = [[Str ''venue-0'', Str ''1531-6912''], [Str ''venue-1'', Str ''1367-5931'']]\<rparr>"
  by (simp add: insert_internal_id_def insert_first_def str.simps digit_char_def upt_rec)

text \<open>
  Claim C4. For every record set and prefix, the identifier attached to the \<open>i\<close>-th record
  (0-based, in input order) is the prefix, a hyphen and the decimal index \<open>i\<close>, and the
  identifiers are pairwise distinct. This holds of the list the comprehension builds,
  of the list the loop of hands-on 04 builds, and of the column \<open>unique_id\<close> of the
  frame after the assignment, which always succeeds, keeps the number of rows and leaves
  every other column as it was.
\<close>

theorem AssignIdentifiers_prefix_index:
  assumes "rectangular df"
  shows "(\<forall>i<n. unique_id (pfx @ ''-'') n ! i = Str (pfx @ ''-'' @ str i))
    \<and> distinct (unique_id (pfx @ ''-'') n)
    \<and> length (internal_id_loop (pfx @ ''-'') 0 rs []) = length rs
    \<and> (\<forall>i<length rs. internal_id_loop (pfx @ ''-'') 0 rs [] ! i = Str (pfx @ ''-'' @ str i))
    \<and> distinct (internal_id_loop (pfx @ ''-'') 0 rs [])
    \<and> (\<exists>df'. assign_unique_id (pfx @ ''-'') df = Inr df'
          \<and> length (rows df') = length (rows df)
          \<and> (\<forall>i<length (rows df).
                getitem (columns df') (rows df' ! i) ''unique_id'' = Inr (Str (pfx @ ''-'' @ str i)))
          \<and> distinct (map (\<lambda>r. getitem (columns df') r ''unique_id'') (rows df'))
          \<and> (\<forall>i c. i < length (rows df) \<longrightarrow> c \<noteq> ''unique_id'' \<longrightarrow>
                getitem (columns df') (rows df' ! i) c = getitem (columns df) (rows df ! i) c))"
proof -
  let ?a = "assigned (pfx @ ''-'') df"
  have "\<forall>i<length (rows df).
          getitem (columns ?a) (rows ?a ! i) ''unique_id'' = Inr (Str (pfx @ ''-'' @ str i))"
    using assigned_getitem [OF assms, of _ "pfx @ ''-''"] by simp
  moreover have "\<forall>i c. i < length (rows df) \<longrightarrow> c \<noteq> ''unique_id'' \<longrightarrow>
          getitem (columns ?a) (rows ?a ! i) c = getitem (columns df) (rows df ! i) c"
    using assigned_other [OF assms] by blast
  ultimately show ?thesis
    using assigned_column_distinct [OF assms, of "pfx @ ''-''"]
    by (simp add: unique_id_nth unique_id_distinct assign_unique_id_eq assigned_length
        internal_id_loop_unique_id unique_id_length)
qed

theorem AssignIdentifiers_prefix_index_witness:
  "rectangular \<lparr>columns = [''id'', ''title''],
                rows = [[Str ''doi:10.1/a'', Str ''A''], [Str ''doi:10.1/b'', NaN]]\<rparr>
   \<and> unique_id ''biblio-'' 2 ! 1 = Str ''biblio-1''
   \<and> (\<exists>df'. assign_unique_id ''biblio-''
               \<lparr>columns = [''id'', ''title''],
                rows = [[Str ''doi:10.1/a'', Str ''A''], [Str ''doi:10.1/b'', NaN]]\<rparr> = Inr df'
          \<and> getitem (columns df') (rows df' ! 1) ''unique_id'' = Inr (Str ''biblio-1''))"
proof -
  let ?df = "\<lparr>columns = [''id'', ''title''],
              rows = [[Str ''doi:10.1/a'', Str ''A''], [Str ''doi:10.1/b'', NaN]]\<rparr>"
  have r: "rectangular ?df"
    by (simp add: rectangular_def)
  have s: "str 1 = ''1''"
    by (simp add: str.simps digit_char_def)
  show ?thesis
    using r s AssignIdentifiers_prefix_index [OF r, of 2 "''biblio''" "[]"]
    by fastforce
qed



section \<open>Properties of the merge\<close>

lemma example_merge_left:
  "merged_df
     \<lparr>columns = [''id'', ''title'', ''publisher'', ''unique_id''],
      rows = [[Str ''doi:10.1/a'', Str ''A'', Str ''crossref:15'', Str ''biblio-0''],
              [Str ''doi:10.1/b'', Str ''B'', NaN, Str ''biblio-1''],
              [Str ''doi:10.1/c'', Str ''C'', Str ''crossref:98'', Str ''biblio-2'']]\<rparr>
     \<lparr>columns = [''id'', ''name'', ''unique_id''],
      rows = [[Str ''crossref:98'', Str ''Hindawi'', Str ''publisher-0''],
              [Str ''crossref:15'', Str ''APA'', Str ''publisher-1'']]\<rparr>
   = Inr \<lparr>columns = [''bibliographic_id'', ''title'', ''publisher'', ''unique_id_x'',
                     ''publisher_id'', ''publisher_name'', ''unique_id_y''],
          rows = [[Str ''doi:10.1/a'', Str ''A'', Str ''crossref:15'', Str ''biblio-0'',
                   Str ''crossref:15'', Str ''APA'', Str ''publisher-1''],
                  [Str ''doi:10.1/b'', Str ''B'', NaN, Str ''biblio-1'', NaN, NaN, NaN],
                  [Str ''doi:10.1/c'', Str ''C'', Str ''crossref:98'', Str ''biblio-2'',
                   Str ''crossref:98'', Str ''Hindawi'', Str ''publisher-0'']]\<rparr>"
  by (simp add: merged_df_def merge_def merge_columns_def right_part_def joined_rows_def
      matching_def getitem_def rename_def)

lemma example_merge_inner:
  "merge
     \<lparr>columns = [''id'', ''name'', ''type''],
      rows = [[Str ''1531-6912'', Str ''Comparative and Functional Genomics'', Str ''journal''],
              [Str ''0000-0000'', Str ''Unknown'', Str ''journal'']]\<rparr>
     \<lparr>columns = [''venueId'', ''id''],
      rows = [[Str ''venue-0'', Str ''1531-6912''], [Str ''venue-1'', Str ''1367-5931'']]\<rparr>
     ''id'' ''id'' how_inner
   = Inr \<lparr>columns = [''id'', ''name'', ''type'', ''venueId''],
          rows = [[Str ''1531-6912'', Str ''Comparative and Functional Genomics'', Str ''journal'',
                   Str ''venue-0'']]\<rparr>"
  by (simp add: merge_def merge_columns_def right_part_def joined_rows_def
      matching_def getitem_def drop_nth_def)






lemma joined_rows_left_prefix:
  "o' \<in> set (joined_rows left right left_on right_on how_left l) \<Longrightarrow> take (length l) o' = l"
  by (auto simp: joined_rows_def split: list.splits)














section \<open>Properties of the RDF graph\<close>

lemma add_set: "set (add g t) = insert t (set g)"
  by (auto simp: add_def)

lemma fold_add_set: "set (fold (\<lambda>t g. add g t) ts g) = set g \<union> set ts"
  by (induction ts arbitrary: g) (auto simp: add_set)

lemma fold_add_fresh:
  "distinct ts \<Longrightarrow> set ts \<inter> set g = {} \<Longrightarrow> fold (\<lambda>t g. add g t) ts g = g @ ts"
proof (induction ts arbitrary: g)
  case Nil
  then show ?case by simp
next
  case (Cons t ts)
  have a: "add g t = g @ [t]"
    using Cons.prems(2) by (simp add: add_def)
  have "fold (\<lambda>t g. add g t) ts (g @ [t]) = (g @ [t]) @ ts"
    using Cons.prems by (intro Cons.IH) auto
  then show ?case
    by (simp add: a)
qed

lemma predicates_differ:
  "RDF_type \<noteq> name" "RDF_type \<noteq> identifier" "RDF_type \<noteq> issue" "RDF_type \<noteq> volume"
  "RDF_type \<noteq> publicationYear" "RDF_type \<noteq> publicationVenue"
  "name \<noteq> identifier" "name \<noteq> issue" "name \<noteq> volume" "name \<noteq> publicationYear"
  "name \<noteq> publicationVenue"
  "identifier \<noteq> issue" "identifier \<noteq> volume" "identifier \<noteq> publicationYear"
  "identifier \<noteq> publicationVenue"
  "issue \<noteq> volume" "issue \<noteq> publicationYear" "issue \<noteq> publicationVenue"
  "volume \<noteq> publicationYear" "volume \<noteq> publicationVenue"
  "publicationYear \<noteq> publicationVenue"
  by (simp_all add: RDF_type_def name_def identifier_def issue_def volume_def
      publicationYear_def publicationVenue_def)

lemma venue_step_eq:
  "venue_step base idx row (g, d)
   = (fold (\<lambda>t g. add g t) (venue_statements base idx row) g,
      d(venue_id row \<mapsto> URIRef (base @ ''venue-'' @ str idx)))"
  by (simp add: venue_step_def venue_statements_def Let_def)

lemma publication_step_eq:
  "publication_step base d idx row g
   = (case d (pub_venue row) of
        None \<Rightarrow> Inl (KeyError (pub_venue row))
      | Some v \<Rightarrow> Inr (fold (\<lambda>t g. add g t) (publication_statements base idx row v) g))"
  by (simp add: publication_step_def publication_statements_def Let_def split: option.splits)

lemma venue_statements_distinct: "distinct (venue_statements base idx row)"
  by (simp add: venue_statements_def predicates_differ)

lemma publication_statements_distinct: "distinct (publication_statements base idx row v)"
  by (simp add: publication_statements_def predicates_differ predicates_differ [symmetric])

lemma venue_statements_length: "length (venue_statements base idx row) = 3"
  by (simp add: venue_statements_def)

lemma publication_statements_length:
  "length (publication_statements base idx row v) = (if pub_type row = ''journal article'' then 7 else 5)"
  by (simp add: publication_statements_def)



lemma publication_step_set:
  "d (pub_venue row) = Some v \<Longrightarrow>
   \<exists>g'. publication_step base d idx row g = Inr g'
      \<and> set g' = set g \<union> set (publication_statements base idx row v)"
  by (simp add: publication_step_eq fold_add_set)




lemma venues_loop_set:
  "set (fst (venues_loop base k vs (g, d)))
   = set g \<union> (\<Union>j<length vs. set (venue_statements base (k + j) (vs ! j)))"
proof (induction vs arbitrary: k g d)
  case Nil
  then show ?case by simp
next
  case (Cons row vs)
  have "(\<Union>j<length (row # vs). set (venue_statements base (k + j) ((row # vs) ! j)))
        = set (venue_statements base k row)
          \<union> (\<Union>j<length vs. set (venue_statements base (Suc k + j) (vs ! j)))"
    by (auto simp: less_Suc_eq_0_disj)
  then show ?case
    using Cons.IH [of "Suc k"] by (simp add: venue_step_eq fold_add_set Un_assoc)
qed

lemma publications_loop_set:
  "publications_loop base d k ps g = Inr g' \<Longrightarrow>
   set g \<subseteq> set g'
   \<and> (\<forall>j<length ps. \<exists>v. d (pub_venue (ps ! j)) = Some v
          \<and> set (publication_statements base (k + j) (ps ! j) v) \<subseteq> set g')"
proof (induction ps arbitrary: k g)
  case Nil
  then show ?case by simp
next
  case (Cons row ps)
  from Cons.prems obtain v where v: "d (pub_venue row) = Some v"
    by (auto simp: publication_step_eq split: option.splits)
  let ?g = "fold (\<lambda>t g. add g t) (publication_statements base k row v) g"
  have l: "publications_loop base d (Suc k) ps ?g = Inr g'"
    using Cons.prems v by (simp add: publication_step_eq)
  note ih = Cons.IH [OF l]
  have g: "set g \<subseteq> set g'" and r: "set (publication_statements base k row v) \<subseteq> set g'"
    using ih by (auto simp: fold_add_set)
  have "\<exists>v. d (pub_venue ((row # ps) ! j)) = Some v
          \<and> set (publication_statements base (k + j) ((row # ps) ! j) v) \<subseteq> set g'"
    if "j < length (row # ps)" for j
  proof (cases j)
    case 0
    then show ?thesis using v r by simp
  next
    case (Suc i)
    then show ?thesis using ih that by simp
  qed
  then show ?case using g by blast
qed

lemma journal_article_issue_statement:
  assumes "publication_step base d idx row g = Inr g'" and "pub_type row = ''journal article''"
  shows "(URIRef (base @ ''publication-'' @ str idx), issue, Literal (pub_issue row)) \<in> set g'"
proof -
  from assms(1) obtain v where v: "d (pub_venue row) = Some v"
    by (auto simp: publication_step_eq split: option.splits)
  from publication_step_set [where d = d and row = row and v = v and base = base and idx = idx and g = g] v assms(1)
  have "set g' = set g \<union> set (publication_statements base idx row v)"
    by simp
  then show ?thesis
    using assms(2) by (simp add: publication_statements_def)
qed

text \<open>
  Claim C2, at the input where the code departs from it: a journal article whose
  \<open>issue\<close> field is empty. The loop adds the issue statement for every journal article,
  whatever the field holds, so the graph has a statement with the issue predicate and
  the empty literal for that publication.
\<close>

theorem empty_issue_is_persisted:
  "\<exists>g. populate base_url
          [\<lparr>venue_id = ''1531-6912'', venue_name = ''Comparative and Functional Genomics'',
            venue_type = ''journal''\<rparr>]
          [\<lparr>pub_doi = ''10.1002/cfg.304'', pub_title = ''Development of Computational Tools'',
            pub_year = 2003, pub_venue = ''1531-6912'', pub_type = ''journal article'',
            pub_issue = [], pub_volume = ''4''\<rparr>] = Inr g
      \<and> (URIRef (base_url @ ''publication-0''), issue, Literal []) \<in> set g
      \<and> length g = 10"
proof -
  let ?v = "\<lparr>venue_id = ''1531-6912'', venue_name = ''Comparative and Functional Genomics'',
             venue_type = ''journal''\<rparr>"
  let ?p = "\<lparr>pub_doi = ''10.1002/cfg.304'', pub_title = ''Development of Computational Tools'',
             pub_year = 2003, pub_venue = ''1531-6912'', pub_type = ''journal article'',
             pub_issue = [], pub_volume = ''4''\<rparr>"
  let ?n = "URIRef (base_url @ ''venue-'' @ str 0)"
  have s0: "str 0 = ''0''"
    by (simp add: str.simps digit_char_def)
  have vs: "venues_loop base_url 0 [?v] ([], Map.empty)
            = (venue_statements base_url 0 ?v, [''1531-6912'' \<mapsto> ?n])"
    using fold_add_fresh [OF venue_statements_distinct, of base_url 0 ?v "[]"]
    by (simp add: venue_step_eq)
  have disj: "set (publication_statements base_url 0 ?p ?n) \<inter> set (venue_statements base_url 0 ?v) = {}"
    by (simp add: publication_statements_def venue_statements_def s0)
  have ps: "publications_loop base_url [''1531-6912'' \<mapsto> ?n] 0 [?p] (venue_statements base_url 0 ?v)
            = Inr (venue_statements base_url 0 ?v @ publication_statements base_url 0 ?p ?n)"
    using fold_add_fresh [OF publication_statements_distinct disj]
    by (simp add: publication_step_eq)
  have "populate base_url [?v] [?p]
        = Inr (venue_statements base_url 0 ?v @ publication_statements base_url 0 ?p ?n)"
    unfolding populate_def vs Let_def fst_conv snd_conv by (rule ps)
  then show ?thesis
    by (simp add: publication_statements_def venue_statements_def s0)
qed




section \<open>Properties of the relational database and of the upload\<close>

lemma insert_Publisher_ok:
  "insert_Publisher con r = Inr con' \<Longrightarrow>
   con' = con\<lparr>working := (working con)\<lparr>Publisher := Publisher (working con) @ [r]\<rparr>\<rparr>"
  by (auto simp: insert_Publisher_def split: prod.splits if_splits)

lemma insert_BibliographicResource_ok:
  "insert_BibliographicResource con r = Inr con' \<Longrightarrow>
   con' = con\<lparr>working := (working con)
             \<lparr>BibliographicResource := BibliographicResource (working con) @ [r]\<rparr>\<rparr>"
  by (auto simp: insert_BibliographicResource_def split: prod.splits if_splits)

lemma insert_publishers_keeps:
  "insert_publishers cols rs con = (x, con') \<Longrightarrow>
   is_open con' = is_open con \<and> db_file con' = db_file con"
proof (induction rs arbitrary: con)
  case Nil
  then show ?case by simp
next
  case (Cons row rs)
  show ?case
  proof (cases "publisher_parameters cols row")
    case (Inl e)
    with Cons.prems show ?thesis by simp
  next
    case (Inr r)
    show ?thesis
    proof (cases "insert_Publisher con r")
      case (Inl e)
      with Inr Cons.prems show ?thesis by simp
    next
      case con1: (Inr con1)
      then have "insert_publishers cols rs con1 = (x, con')"
        using Inr Cons.prems by simp
      from Cons.IH [OF this] insert_Publisher_ok [OF con1] show ?thesis by simp
    qed
  qed
qed

lemma insert_resources_keeps:
  "insert_resources cols rs con = (x, con') \<Longrightarrow>
   is_open con' = is_open con \<and> db_file con' = db_file con"
proof (induction rs arbitrary: con)
  case Nil
  then show ?case by simp
next
  case (Cons row rs)
  show ?case
  proof (cases "resource_parameters cols row")
    case (Inl e)
    with Cons.prems show ?thesis by simp
  next
    case (Inr r)
    show ?thesis
    proof (cases "insert_BibliographicResource con r")
      case (Inl e)
      with Inr Cons.prems show ?thesis by simp
    next
      case con1: (Inr con1)
      then have "insert_resources cols rs con1 = (x, con')"
        using Inr Cons.prems by simp
      from Cons.IH [OF this] insert_BibliographicResource_ok [OF con1] show ?thesis by simp
    qed
  qed
qed

lemma insert_publishers_all:
  "insert_publishers cols rs con = (None, con') \<Longrightarrow>
   \<exists>ps. map (publisher_parameters cols) rs = map Inr ps
      \<and> working con' = (working con)\<lparr>Publisher := Publisher (working con) @ ps\<rparr>"
proof (induction rs arbitrary: con)
  case Nil
  then show ?case by simp
next
  case (Cons row rs)
  from Cons.prems obtain r where r: "publisher_parameters cols row = Inr r"
    by (cases "publisher_parameters cols row") simp_all
  from Cons.prems r obtain con1 where con1: "insert_Publisher con r = Inr con1"
    by (cases "insert_Publisher con r") simp_all
  have "insert_publishers cols rs con1 = (None, con')"
    using Cons.prems r con1 by simp
  from Cons.IH [OF this] obtain ps where
    ps: "map (publisher_parameters cols) rs = map Inr ps"
      "working con' = (working con1)\<lparr>Publisher := Publisher (working con1) @ ps\<rparr>"
    by blast
  have "map (publisher_parameters cols) (row # rs) = map Inr (r # ps)"
    using r ps(1) by simp
  moreover have "working con' = (working con)\<lparr>Publisher := Publisher (working con) @ (r # ps)\<rparr>"
    using ps(2) insert_Publisher_ok [OF con1] by simp
  ultimately show ?case by blast
qed

lemma insert_resources_all:
  "insert_resources cols rs con = (None, con') \<Longrightarrow>
   \<exists>bs. map (resource_parameters cols) rs = map Inr bs
      \<and> working con' = (working con)
           \<lparr>BibliographicResource := BibliographicResource (working con) @ bs\<rparr>"
proof (induction rs arbitrary: con)
  case Nil
  then show ?case by simp
next
  case (Cons row rs)
  from Cons.prems obtain r where r: "resource_parameters cols row = Inr r"
    by (cases "resource_parameters cols row") simp_all
  from Cons.prems r obtain con1 where con1: "insert_BibliographicResource con r = Inr con1"
    by (cases "insert_BibliographicResource con r") simp_all
  have "insert_resources cols rs con1 = (None, con')"
    using Cons.prems r con1 by simp
  from Cons.IH [OF this] obtain bs where
    bs: "map (resource_parameters cols) rs = map Inr bs"
      "working con' = (working con1)
         \<lparr>BibliographicResource := BibliographicResource (working con1) @ bs\<rparr>"
    by blast
  have "map (resource_parameters cols) (row # rs) = map Inr (r # bs)"
    using r bs(1) by simp
  moreover have "working con' = (working con)
        \<lparr>BibliographicResource := BibliographicResource (working con) @ (r # bs)\<rparr>"
    using bs(2) insert_BibliographicResource_ok [OF con1] by simp
  ultimately show ?case by blast
qed



text \<open>The two outcomes of the cell of exercise 3.\<close>

lemma create_library_db_success:
  assumes "create_library_db P B = (None, con)"
  shows "\<exists>ps bs. map (publisher_parameters (columns P)) (rows P) = map Inr ps
      \<and> map (resource_parameters (columns B)) (rows B) = map Inr bs
      \<and> con = \<lparr>is_open = False, working = \<lparr>Publisher = ps, BibliographicResource = bs\<rparr>,
               db_file = \<lparr>Publisher = ps, BibliographicResource = bs\<rparr>\<rparr>"
proof -
  let ?c0 = "connect \<lparr>Publisher = [], BibliographicResource = []\<rparr>"
  obtain x c1 where c1: "insert_publishers (columns P) (rows P) ?c0 = (x, c1)"
    by (cases "insert_publishers (columns P) (rows P) ?c0")
  have x: "x = None"
    using assms c1 by (cases x) (simp_all add: create_library_db_def)
  obtain y c2 where c2: "insert_resources (columns B) (rows B) c1 = (y, c2)"
    by (cases "insert_resources (columns B) (rows B) c1")
  have y: "y = None"
    using assms c1 x c2 by (cases y) (simp_all add: create_library_db_def)
  have con: "con = close (commit c2)"
    using assms c1 x c2 y by (simp add: create_library_db_def)
  from insert_publishers_all [OF c1 [unfolded x]] obtain ps where
    ps: "map (publisher_parameters (columns P)) (rows P) = map Inr ps"
      "working c1 = (working ?c0)\<lparr>Publisher := Publisher (working ?c0) @ ps\<rparr>"
    by blast
  from insert_resources_all [OF c2 [unfolded y]] obtain bs where
    bs: "map (resource_parameters (columns B)) (rows B) = map Inr bs"
      "working c2 = (working c1)\<lparr>BibliographicResource := BibliographicResource (working c1) @ bs\<rparr>"
    by blast
  have "working c2 = \<lparr>Publisher = ps, BibliographicResource = bs\<rparr>"
    using ps(2) bs(2) by (simp add: connect_def)
  then have "con = \<lparr>is_open = False, working = \<lparr>Publisher = ps, BibliographicResource = bs\<rparr>,
               db_file = \<lparr>Publisher = ps, BibliographicResource = bs\<rparr>\<rparr>"
    using con by (cases c2) (simp add: close_def commit_def)
  then show ?thesis
    using ps(1) bs(1) by blast
qed

lemma create_library_db_failure:
  assumes "create_library_db P B = (Some e, con)"
  shows "is_open con \<and> db_file con = \<lparr>Publisher = [], BibliographicResource = []\<rparr>"
proof -
  let ?c0 = "connect \<lparr>Publisher = [], BibliographicResource = []\<rparr>"
  obtain x c1 where c1: "insert_publishers (columns P) (rows P) ?c0 = (x, c1)"
    by (cases "insert_publishers (columns P) (rows P) ?c0")
  have k1: "is_open c1 \<and> db_file c1 = \<lparr>Publisher = [], BibliographicResource = []\<rparr>"
    using insert_publishers_keeps [OF c1] by (simp add: connect_def)
  show ?thesis
  proof (cases x)
    case (Some e1)
    then have "con = c1"
      using assms c1 by (simp add: create_library_db_def)
    then show ?thesis using k1 by simp
  next
    case None
    obtain y c2 where c2: "insert_resources (columns B) (rows B) c1 = (y, c2)"
      by (cases "insert_resources (columns B) (rows B) c1")
    have k2: "is_open c2 \<and> db_file c2 = \<lparr>Publisher = [], BibliographicResource = []\<rparr>"
      using insert_resources_keeps [OF c2] k1 by simp
    have "y \<noteq> None"
      using assms c1 None c2 by (cases y) (simp_all add: create_library_db_def)
    then obtain e2 where "y = Some e2" by blast
    then have "con = c2"
      using assms c1 None c2 by (simp add: create_library_db_def)
    then show ?thesis using k2 by simp
  qed
qed

lemma store_add_all_keeps:
  "store_add_all answers ts store = (x, store') \<Longrightarrow> store_open store' = store_open store"
proof (induction ts arbitrary: store)
  case Nil
  then show ?case by simp
next
  case (Cons t ts)
  show ?case
  proof (cases "answers t")
    case True
    then have "store_add_all answers ts (store\<lparr>statements := add (statements store) t\<rparr>) = (x, store')"
      using Cons.prems by simp
    from Cons.IH [OF this] show ?thesis by simp
  next
    case False
    then show ?thesis using Cons.prems by simp
  qed
qed

lemma store_add_all_outcome:
  "fst (store_add_all answers ts store) = None \<longleftrightarrow> (\<forall>t\<in>set ts. answers t)"
  by (induction ts arbitrary: store) simp_all

lemma store_add_all_statements:
  "store_add_all answers ts store = (None, store') \<Longrightarrow>
   set (statements store') = set (statements store) \<union> set ts"
proof (induction ts arbitrary: store)
  case Nil
  then show ?case by simp
next
  case (Cons t ts)
  have a: "answers t"
    using Cons.prems by (cases "answers t") simp_all
  then have "store_add_all answers ts (store\<lparr>statements := add (statements store) t\<rparr>) = (None, store')"
    using Cons.prems by simp
  from Cons.IH [OF this] show ?case
    by (auto simp: add_set)
qed

lemma upload_success:
  assumes "upload answers remote g = (None, store)"
  shows "\<not> store_open store \<and> set (statements store) = set remote \<union> set g"
proof -
  let ?s0 = "\<lparr>store_open = True, statements = remote\<rparr>"
  obtain x s1 where s1: "store_add_all answers g ?s0 = (x, s1)"
    by (cases "store_add_all answers g ?s0")
  have x: "x = None"
    using assms s1 by (cases x) (simp_all add: upload_def)
  have "store = s1\<lparr>store_open := False\<rparr>"
    using assms s1 x by (simp add: upload_def)
  then show ?thesis
    using store_add_all_statements [OF s1 [unfolded x]] by simp
qed

lemma upload_failure:
  assumes "upload answers remote g = (Some e, store)"
  shows "store_open store"
proof -
  let ?s0 = "\<lparr>store_open = True, statements = remote\<rparr>"
  obtain x s1 where s1: "store_add_all answers g ?s0 = (x, s1)"
    by (cases "store_add_all answers g ?s0")
  have "x \<noteq> None"
    using assms s1 by (cases x) (simp_all add: upload_def)
  then have "store = s1"
    using assms s1 by (cases x) (simp_all add: upload_def)
  then show ?thesis
    using store_add_all_keeps [OF s1] by simp
qed

lemma upload_outcome:
  "fst (upload answers remote g) = None \<longleftrightarrow> (\<forall>t\<in>set g. answers t)"
proof -
  let ?s0 = "\<lparr>store_open = True, statements = remote\<rparr>"
  obtain x s1 where s1: "store_add_all answers g ?s0 = (x, s1)"
    by (cases "store_add_all answers g ?s0")
  have "fst (upload answers remote g) = None \<longleftrightarrow> x = None"
    using s1 by (cases x) (simp_all add: upload_def)
  then show ?thesis
    using store_add_all_outcome [of answers g ?s0] s1 by simp
qed

lemma first_database_cell_open: "is_open (snd (first_database_cell db))"
  by (simp add: first_database_cell_def with_connect_def commit_def connect_def)

lemma map_Inr_nth:
  assumes "map f xs = map Inr ys"
  shows "length ys = length xs \<and> (\<forall>i<length ys. f (xs ! i) = Inr (ys ! i))"
proof -
  have l: "length ys = length xs"
    using assms by (metis length_map)
  have "f (xs ! i) = Inr (ys ! i)" if "i < length ys" for i
  proof -
    have "map f xs ! i = map Inr ys ! i" using assms by simp
    then show ?thesis using that l by simp
  qed
  then show ?thesis using l by blast
qed


lemma example_library_db:
  "create_library_db
     \<lparr>columns = [''id'', ''name'', ''unique_id''],
      rows = [[Str ''crossref:15'', Str ''APA'', Str ''publisher-0''],
              [Str ''crossref:98'', Str ''Hindawi'', Str ''publisher-1'']]\<rparr>
     \<lparr>columns = [''id'', ''title'', ''type'', ''publisher'', ''unique_id''],
      rows = [[Str ''doi:10.1/a'', Str ''A'', Str ''dataset'', Str ''crossref:15'', Str ''biblio-0''],
              [Str ''doi:10.1/b'', Str ''B'', NaN, NaN, Str ''biblio-1'']]\<rparr>
   = (None,
      \<lparr>is_open = False,
       working = \<lparr>Publisher = [(TEXT ''crossref:15'', TEXT ''APA'', TEXT ''publisher-0''),
                                (TEXT ''crossref:98'', TEXT ''Hindawi'', TEXT ''publisher-1'')],
                  BibliographicResource =
                    [(TEXT ''doi:10.1/a'', TEXT ''A'', TEXT ''dataset'', TEXT ''crossref:15'', TEXT ''biblio-0''),
                     (TEXT ''doi:10.1/b'', TEXT ''B'', NULL, NULL, TEXT ''biblio-1'')]\<rparr>,
       db_file = \<lparr>Publisher = [(TEXT ''crossref:15'', TEXT ''APA'', TEXT ''publisher-0''),
                                (TEXT ''crossref:98'', TEXT ''Hindawi'', TEXT ''publisher-1'')],
                  BibliographicResource =
                    [(TEXT ''doi:10.1/a'', TEXT ''A'', TEXT ''dataset'', TEXT ''crossref:15'', TEXT ''biblio-0''),
                     (TEXT ''doi:10.1/b'', TEXT ''B'', NULL, NULL, TEXT ''biblio-1'')]\<rparr>\<rparr>)"
  by (simp add: create_library_db_def connect_def publisher_parameters_def resource_parameters_def
      getitem_def insert_Publisher_def insert_BibliographicResource_def commit_def close_def)



text \<open>
  Claim C8, as the code has it. When no statement of the batch raises, the connection
  is committed and then closed at the end of the cell (every inserted record is in the
  file), and the store is closed after the last statement was added. When a statement
  raises, the exception leaves the cell at once: the connection is left open with
  nothing committed, and the store is left open. The upload raises exactly when the
  endpoint does not answer the update of some statement of the graph.
\<close>

theorem batch_connection_release:
  "(create_library_db P B = (None, con) \<longrightarrow>
      \<not> is_open con \<and> db_file con = working con
      \<and> length (Publisher (db_file con)) = length (rows P)
      \<and> length (BibliographicResource (db_file con)) = length (rows B))
   \<and> (create_library_db P B = (Some e, con) \<longrightarrow>
      is_open con \<and> db_file con = \<lparr>Publisher = [], BibliographicResource = []\<rparr>)
   \<and> (upload answers remote g = (None, store) \<longrightarrow> \<not> store_open store)
   \<and> (upload answers remote g = (Some e', store) \<longrightarrow> store_open store)
   \<and> (fst (upload answers remote g) = None \<longleftrightarrow> (\<forall>t\<in>set g. answers t))"
proof (intro conjI impI)
  assume ok: "create_library_db P B = (None, con)"
  from create_library_db_success [OF ok] obtain ps bs where
    ps: "map (publisher_parameters (columns P)) (rows P) = map Inr ps"
    and bs: "map (resource_parameters (columns B)) (rows B) = map Inr bs"
    and con: "con = \<lparr>is_open = False, working = \<lparr>Publisher = ps, BibliographicResource = bs\<rparr>,
               db_file = \<lparr>Publisher = ps, BibliographicResource = bs\<rparr>\<rparr>"
    by blast
  show "\<not> is_open con" and "db_file con = working con"
    by (simp_all add: con)
  show "length (Publisher (db_file con)) = length (rows P)"
    using map_Inr_nth [OF ps] by (simp add: con)
  show "length (BibliographicResource (db_file con)) = length (rows B)"
    using map_Inr_nth [OF bs] by (simp add: con)
next
  assume "create_library_db P B = (Some e, con)"
  from create_library_db_failure [OF this]
  show "is_open con" and "db_file con = \<lparr>Publisher = [], BibliographicResource = []\<rparr>"
    by simp_all
next
  assume "upload answers remote g = (None, store)"
  from upload_success [OF this] show "\<not> store_open store" by simp
next
  assume "upload answers remote g = (Some e', store)"
  from upload_failure [OF this] show "store_open store" .
next
  show "(fst (upload answers remote g) = None) = (\<forall>t\<in>set g. answers t)"
    by (rule upload_outcome)
qed

text \<open>
  Two publishers with the same identifier: the second \<open>INSERT\<close> raises, and the cell
  ends with the connection open, one record pending and nothing in the file.
\<close>

theorem batch_left_open_on_error:
  "create_library_db
     \<lparr>columns = [''id'', ''name'', ''unique_id''],
      rows = [[Str ''crossref:15'', Str ''APA'', Str ''publisher-0''],
              [Str ''crossref:15'', Str ''APA'', Str ''publisher-1'']]\<rparr>
     \<lparr>columns = [''id'', ''title'', ''type'', ''publisher'', ''unique_id''],
      rows = [[Str ''doi:10.1/a'', Str ''A'', Str ''dataset'', Str ''crossref:15'', Str ''biblio-0'']]\<rparr>
   = (Some (IntegrityError ''UNIQUE constraint failed: Publisher.id''),
      \<lparr>is_open = True,
       working = \<lparr>Publisher = [(TEXT ''crossref:15'', TEXT ''APA'', TEXT ''publisher-0'')],
                  BibliographicResource = []\<rparr>,
       db_file = \<lparr>Publisher = [], BibliographicResource = []\<rparr>\<rparr>)"
  by (simp add: create_library_db_def connect_def publisher_parameters_def
      getitem_def insert_Publisher_def)

theorem batch_connection_release_witness:
  "(\<exists>con. create_library_db
        \<lparr>columns = [''id'', ''name'', ''unique_id''],
         rows = [[Str ''crossref:15'', Str ''APA'', Str ''publisher-0''],
                 [Str ''crossref:98'', Str ''Hindawi'', Str ''publisher-1'']]\<rparr>
        \<lparr>columns = [''id'', ''title'', ''type'', ''publisher'', ''unique_id''],
         rows = [[Str ''doi:10.1/a'', Str ''A'', Str ''dataset'', Str ''crossref:15'', Str ''biblio-0''],
                 [Str ''doi:10.1/b'', Str ''B'', NaN, NaN, Str ''biblio-1'']]\<rparr> = (None, con)
      \<and> \<not> is_open con \<and> length (Publisher (db_file con)) = 2)
   \<and> (\<exists>e con. create_library_db
        \<lparr>columns = [''id'', ''name'', ''unique_id''],
         rows = [[Str ''crossref:15'', NaN, Str ''publisher-0'']]\<rparr>
        \<lparr>columns = [''id'', ''title'', ''type'', ''publisher'', ''unique_id''], rows = []\<rparr>
        = (Some e, con)
      \<and> is_open con \<and> db_file con = \<lparr>Publisher = [], BibliographicResource = []\<rparr>)
   \<and> (\<exists>store. upload (\<lambda>t. True) [] [(URIRef ''s'', name, Literal ''n'')] = (None, store)
         \<and> \<not> store_open store)
   \<and> (\<exists>e store. upload (\<lambda>t. False) [] [(URIRef ''s'', name, Literal ''n'')] = (Some e, store)
         \<and> store_open store)"
proof -
  let ?P = "\<lparr>columns = [''id'', ''name'', ''unique_id''],
         rows = [[Str ''crossref:15'', Str ''APA'', Str ''publisher-0''],
                 [Str ''crossref:98'', Str ''Hindawi'', Str ''publisher-1'']]\<rparr>"
  let ?B = "\<lparr>columns = [''id'', ''title'', ''type'', ''publisher'', ''unique_id''],
         rows = [[Str ''doi:10.1/a'', Str ''A'', Str ''dataset'', Str ''crossref:15'', Str ''biblio-0''],
                 [Str ''doi:10.1/b'', Str ''B'', NaN, NaN, Str ''biblio-1'']]\<rparr>"
  let ?P' = "\<lparr>columns = [''id'', ''name'', ''unique_id''],
         rows = [[Str ''crossref:15'', NaN, Str ''publisher-0'']]\<rparr>"
  let ?B' = "\<lparr>columns = [''id'', ''title'', ''type'', ''publisher'', ''unique_id''], rows = []\<rparr>"
  let ?g = "[(URIRef ''s'', name, Literal ''n'')]"
  obtain con where con: "create_library_db ?P ?B = (None, con)"
    using example_library_db by blast
  obtain e con' where con': "create_library_db ?P' ?B' = (Some e, con')"
    by (simp add: create_library_db_def connect_def publisher_parameters_def
        getitem_def insert_Publisher_def)
  obtain store where store: "upload (\<lambda>t. True) [] ?g = (None, store)"
    by (simp add: upload_def)
  obtain e' store' where store': "upload (\<lambda>t. False) [] ?g = (Some e', store')"
    by (simp add: upload_def)
  note t1 = batch_connection_release [where P = "?P" and B = "?B" and con = con
      and answers = "\<lambda>t. True" and remote = "[]" and g = "?g" and store = store]
  note t2 = batch_connection_release [where P = "?P'" and B = "?B'" and con = con' and e = e
      and answers = "\<lambda>t. False" and remote = "[]" and g = "?g" and store = store' and e' = e']
  have "\<not> is_open con \<and> length (Publisher (db_file con)) = length (rows ?P)"
    using t1 con by blast
  then have 1: "\<not> is_open con \<and> length (Publisher (db_file con)) = 2"
    by simp
  have 2: "is_open con' \<and> db_file con' = \<lparr>Publisher = [], BibliographicResource = []\<rparr>"
    using t2 con' by blast
  have 3: "\<not> store_open store"
    using t1 store by blast
  have 4: "store_open store'"
    using t2 store' by blast
  show ?thesis
    using con con' store store' 1 2 3 4 by blast
qed

end
